theory Spec2Isabelle
  imports Main "HOL-Library.Sublist"
begin

section \<open>Data model\<close>

text \<open>
  The program is one Python module, \<^verbatim>\<open>data.py\<close>, built on pandas. Its two functions
  with logic are \<^verbatim>\<open>load_data\<close> (lines 62-116) and \<^verbatim>\<open>apply_filters\<close> (lines 119-149).

  A raised exception is a value: the name of its class.
\<close>

datatype error = Raised string

text \<open>
  A cell of a frame: a Python \<^verbatim>\<open>str\<close>, a number (the type of numbers is left open,
  only its zero is used), a timestamp (nanoseconds since the epoch, as pandas stores
  it), or the missing value (\<^verbatim>\<open>NaN\<close>, \<^verbatim>\<open>NaT\<close>).
  Strings are lists of \<^typ>\<open>char\<close>; letter case is folded on the ASCII letters.
\<close>

datatype 'n cell = Str string | Num 'n | Date int | NA

datatype dtype = Object | Category | Datetime64 | Numeric | Boolean

text \<open>
  A \<^verbatim>\<open>DataFrame\<close>: the column labels, the dtype of each column (same order) and the
  rows, each row holding one cell per column in the order of the labels. The labels
  are taken to be distinct, as \<^verbatim>\<open>read_csv\<close> and \<^verbatim>\<open>read_excel\<close> make them. A row
  that is shorter than the header reads as missing in the cells it lacks.
\<close>

record 'n dataframe =
  columns :: "string list"
  dtypes :: "dtype list"
  rows :: "'n cell list list"

fun col_pos :: "string \<Rightarrow> string list \<Rightarrow> nat" where
  "col_pos c [] = 0"
| "col_pos c (x # xs) = (if x = c then 0 else Suc (col_pos c xs))"

definition cell_at :: "nat \<Rightarrow> 'n cell list \<Rightarrow> 'n cell" where
  "cell_at i r = (if i < length r then r ! i else NA)"

definition set_cell :: "nat \<Rightarrow> 'n cell \<Rightarrow> 'n cell list \<Rightarrow> 'n cell list" where
  "set_cell i v r = (r @ replicate (Suc i - length r) NA)[i := v]"

text \<open>\<^verbatim>\<open>df[c]\<close> read row by row: the cell of row \<open>r\<close> under the label \<open>c\<close>.\<close>

definition get :: "'n dataframe \<Rightarrow> string \<Rightarrow> 'n cell list \<Rightarrow> 'n cell" where
  "get df c r = cell_at (col_pos c (columns df)) r"

definition column_values :: "'n dataframe \<Rightarrow> string \<Rightarrow> 'n cell list" where
  "column_values df c = map (get df c) (rows df)"

definition dtype_of :: "'n dataframe \<Rightarrow> string \<Rightarrow> dtype" where
  "dtype_of df c =
     (let i = col_pos c (columns df) in if i < length (dtypes df) then dtypes df ! i else Object)"

section \<open>The library the program calls\<close>

text \<open>
  The program leaves parsing, date and number recognition, string conversion and
  regular expressions to pandas and \<^verbatim>\<open>re\<close>. These calls are parameters of the model,
  one field each, with the arguments the source fixes:
  \<^item> \<open>read_csv\<close>: \<^verbatim>\<open>pd.read_csv(StringIO(bytes.decode("utf-8")), sep=r'\s{2,}', ...)\<close>, line 64-65;
  \<^item> \<open>read_excel\<close>: \<^verbatim>\<open>pd.read_excel(file, engine='calamine')\<close>, line 67;
  \<^item> \<open>to_datetime\<close>: \<^verbatim>\<open>pd.to_datetime(series, errors='coerce', dayfirst=b)\<close>, line 93:
    given the flag \<open>b\<close> and the whole column (pandas guesses one format from it), the
    timestamp of one of its values, or \<open>None\<close> for \<^verbatim>\<open>NaT\<close>;
  \<^item> \<open>to_numeric\<close>: \<^verbatim>\<open>pd.to_numeric(series, errors='coerce')\<close>, line 103, in the same way;
  \<^item> \<open>to_timestamp\<close>: \<^verbatim>\<open>pd.to_datetime(x)\<close> of one scalar, lines 130-131; it may raise;
  \<^item> \<open>repr_str\<close>: what \<^verbatim>\<open>astype(str)\<close> makes of a cell that is not a \<^verbatim>\<open>str\<close>;
  \<^item> \<open>re_compile\<close>: \<^verbatim>\<open>re.compile(pat, re.IGNORECASE)\<close>, which \<^verbatim>\<open>str.contains(pat, case=False)\<close>
    runs once before it looks at any row; it raises \<^verbatim>\<open>re.error\<close> or gives the test
    \<^verbatim>\<open>lambda x: regex.search(x) is not None\<close>.
\<close>

record 'n library =
  read_csv :: "string \<Rightarrow> error + 'n dataframe"
  read_excel :: "string \<Rightarrow> error + 'n dataframe"
  to_datetime :: "bool \<Rightarrow> 'n cell list \<Rightarrow> 'n cell \<Rightarrow> int option"
  to_numeric :: "'n cell list \<Rightarrow> 'n cell \<Rightarrow> 'n option"
  to_timestamp :: "'n cell \<Rightarrow> error + int option"
  repr_str :: "'n cell \<Rightarrow> string"
  re_compile :: "string \<Rightarrow> error + (string \<Rightarrow> bool)"

text \<open>\<^verbatim>\<open>series.astype(str)\<close>, cell by cell: a \<^verbatim>\<open>str\<close> stays as it is.\<close>

definition astype_str :: "'n library \<Rightarrow> 'n cell \<Rightarrow> string" where
  "astype_str P v = (case v of Str s \<Rightarrow> s | _ \<Rightarrow> repr_str P v)"

section \<open>Filter criteria\<close>

text \<open>
  \<^verbatim>\<open>filters\<close> is a dict from a key to a criterion; a criterion is \<^verbatim>\<open>None\<close>, a
  \<^verbatim>\<open>str\<close>, or a list or tuple (the source treats the two alike, lines 123 and 146)
  whose items are cells or \<^verbatim>\<open>None\<close>. The dict is read in insertion order (line 122),
  so it is an association list.
\<close>

datatype 'n criterion = CNone | CStr string | CSeq "'n cell option list"

type_synonym 'n filters = "(string \<times> 'n criterion) list"

text \<open>Line 123: \<^verbatim>\<open>criterion is None or (isinstance(criterion, (str, list, tuple)) and not criterion)\<close>.\<close>

fun no_criterion :: "'n criterion \<Rightarrow> bool" where
  "no_criterion CNone = True"
| "no_criterion (CStr s) = (s = [])"
| "no_criterion (CSeq vs) = (vs = [])"

text \<open>\<^verbatim>\<open>criterion[i]\<close>: a character of a string is a string of length one.\<close>

fun item :: "'n criterion \<Rightarrow> nat \<Rightarrow> error + 'n cell option" where
  "item CNone i = Inl (Raised ''TypeError'')"
| "item (CStr s) i = (if i < length s then Inr (Some (Str [s ! i])) else Inl (Raised ''IndexError''))"
| "item (CSeq vs) i = (if i < length vs then Inr (vs ! i) else Inl (Raised ''IndexError''))"

definition ascii_upper :: string where
  "ascii_upper = ''ABCDEFGHIJKLMNOPQRSTUVWXYZ''"

definition ascii_lower :: string where
  "ascii_lower = ''abcdefghijklmnopqrstuvwxyz''"

definition lower_char :: "char \<Rightarrow> char" where
  "lower_char c = (case map_of (zip ascii_upper ascii_lower) c of Some d \<Rightarrow> d | None \<Rightarrow> c)"

definition lower :: "string \<Rightarrow> string" where
  "lower s = map lower_char s"

text \<open>Line 138, \<^verbatim>\<open>[k.lower() for k in criterion]\<close>: only a \<^verbatim>\<open>str\<close> has \<^verbatim>\<open>lower\<close>.\<close>

fun lower_item :: "'n cell option \<Rightarrow> error + string" where
  "lower_item (Some (Str k)) = Inr (lower k)"
| "lower_item _ = Inl (Raised ''AttributeError'')"

fun lower_all :: "'n cell option list \<Rightarrow> error + string list" where
  "lower_all [] = Inr []"
| "lower_all (k # ks) =
     (case lower_item k of
        Inl e \<Rightarrow> Inl e
      | Inr s \<Rightarrow> (case lower_all ks of Inl e \<Rightarrow> Inl e | Inr ss \<Rightarrow> Inr (s # ss)))"

fun lower_keywords :: "'n criterion \<Rightarrow> error + string list" where
  "lower_keywords CNone = Inl (Raised ''TypeError'')"
| "lower_keywords (CStr s) = Inr (map (\<lambda>c. [lower_char c]) s)"
| "lower_keywords (CSeq vs) = lower_all vs"

text \<open>\<^verbatim>\<open>"|".join(ks)\<close>.\<close>

fun join_bar :: "string list \<Rightarrow> string" where
  "join_bar [] = []"
| "join_bar [k] = k"
| "join_bar (k # k' # ks) = k @ ''|'' @ join_bar (k' # ks)"

section \<open>The filter engine\<close>

text \<open>
  A boolean mask computed row by row; the comparison of the whole column raises when
  one row raises, and then no frame is produced.
\<close>

fun select_rows :: "('a \<Rightarrow> error + bool) \<Rightarrow> 'a list \<Rightarrow> error + 'a list" where
  "select_rows p [] = Inr []"
| "select_rows p (r # rs) =
     (case p r of
        Inl e \<Rightarrow> Inl e
      | Inr b \<Rightarrow>
          (case select_rows p rs of
             Inl e \<Rightarrow> Inl e
           | Inr rs' \<Rightarrow> Inr (if b then r # rs' else rs')))"

text \<open>
  Lines 133-134, \<^verbatim>\<open>(df['DATE'] >= start_date) & (df['DATE'] <= end_date)\<close>, for one
  cell: a timestamp is compared, a missing value compares false, and a string or a
  number cannot be compared with a timestamp.
\<close>

fun between :: "int option \<Rightarrow> int option \<Rightarrow> 'n cell \<Rightarrow> error + bool" where
  "between s e (Date d) =
     Inr (case s of None \<Rightarrow> False
          | Some a \<Rightarrow> (case e of None \<Rightarrow> False | Some b \<Rightarrow> a \<le> d \<and> d \<le> b))"
| "between s e NA = Inr False"
| "between s e (Str x) = Inl (Raised ''TypeError'')"
| "between s e (Num x) = Inl (Raised ''TypeError'')"

definition keep :: "'n dataframe \<Rightarrow> ('n cell list \<Rightarrow> bool) \<Rightarrow> 'n dataframe" where
  "keep df p = df\<lparr>rows := filter p (rows df)\<rparr>"

text \<open>Lines 129-135, once the key is \<^verbatim>\<open>DATE_RANGE\<close>.\<close>

definition date_range :: "'n library \<Rightarrow> 'n dataframe \<Rightarrow> 'n criterion \<Rightarrow> error + 'n dataframe" where
  "date_range P df criterion =
     (if ''DATE'' \<in> set (columns df) then
        (case item criterion 0 of
           Inl e \<Rightarrow> Inl e
         | Inr None \<Rightarrow> Inr df
         | Inr (Some c0) \<Rightarrow>
             (case item criterion 1 of
                Inl e \<Rightarrow> Inl e
              | Inr None \<Rightarrow> Inr df
              | Inr (Some c1) \<Rightarrow>
                  (case to_timestamp P c0 of
                     Inl e \<Rightarrow> Inl e
                   | Inr start_date \<Rightarrow>
                       (case to_timestamp P c1 of
                          Inl e \<Rightarrow> Inl e
                        | Inr end_date \<Rightarrow>
                            (case select_rows (\<lambda>r. between start_date end_date (get df ''DATE'' r)) (rows df) of
                               Inl e \<Rightarrow> Inl e
                             | Inr rs \<Rightarrow> Inr (df\<lparr>rows := rs\<rparr>))))))
      else Inr df)"

text \<open>
  \<^verbatim>\<open>df[df[column].astype(str).str.contains(pat, case=False, na=False)]\<close>, lines 139-141
  and 143-145: the pattern is compiled first, then every row is tested.
\<close>

definition contains :: "'n library \<Rightarrow> 'n dataframe \<Rightarrow> string \<Rightarrow> string \<Rightarrow> error + 'n dataframe" where
  "contains P df column pat =
     (case re_compile P pat of
        Inl e \<Rightarrow> Inl e
      | Inr found \<Rightarrow> Inr (keep df (\<lambda>r. found (astype_str P (get df column r)))))"

text \<open>Lines 137-141, once the key is \<^verbatim>\<open>AWP_MACHINES\<close>.\<close>

definition awp_machines :: "'n library \<Rightarrow> 'n dataframe \<Rightarrow> 'n criterion \<Rightarrow> error + 'n dataframe" where
  "awp_machines P df criterion =
     (if ''PRODUCT DESCRIPTION'' \<in> set (columns df) \<and> \<not> no_criterion criterion then
        (case lower_keywords criterion of
           Inl e \<Rightarrow> Inl e
         | Inr ks \<Rightarrow> contains P df ''PRODUCT DESCRIPTION'' (join_bar ks))
      else Inr df)"

text \<open>Line 148, \<^verbatim>\<open>df[df[column].isin(criterion)]\<close>.\<close>

definition isin :: "'n dataframe \<Rightarrow> string \<Rightarrow> 'n cell option list \<Rightarrow> 'n dataframe" where
  "isin df column vs = keep df (\<lambda>r. Some (get df column r) \<in> set vs)"

text \<open>One turn of the loop of line 122: lines 123-148 for one key and its criterion.\<close>

definition apply_filter :: "'n library \<Rightarrow> 'n dataframe \<Rightarrow> string \<times> 'n criterion \<Rightarrow> error + 'n dataframe" where
  "apply_filter P df f =
     (let column = fst f; criterion = snd f in
      if no_criterion criterion then Inr df
      else if column \<notin> set (columns df) \<and> column \<notin> set [''DATE_RANGE'', ''AWP_MACHINES''] then Inr df
      else if column = ''DATE_RANGE'' then date_range P df criterion
      else if column = ''AWP_MACHINES'' then awp_machines P df criterion
      else (case criterion of
              CStr pat \<Rightarrow> contains P df column pat
            | CSeq vs \<Rightarrow> (if column \<in> set (columns df) then Inr (isin df column vs) else Inr df)
            | CNone \<Rightarrow> Inr df))"

fun apply_filters :: "'n library \<Rightarrow> 'n dataframe \<Rightarrow> 'n filters \<Rightarrow> error + 'n dataframe" where
  "apply_filters P df [] = Inr df"
| "apply_filters P df (f # fs) =
     (case apply_filter P df f of
        Inl e \<Rightarrow> Inl e
      | Inr df' \<Rightarrow> apply_filters P df' fs)"

section \<open>The loader\<close>

text \<open>\<^verbatim>\<open>name.endswith(suffix)\<close>, lines 63 and 66.\<close>

definition endswith :: "string \<Rightarrow> string \<Rightarrow> bool" where
  "endswith s t = (length t \<le> length s \<and> drop (length s - length t) s = t)"

text \<open>\<^verbatim>\<open>str.strip()\<close> on ASCII text, line 69.\<close>

definition is_space :: "char \<Rightarrow> bool" where
  "is_space c = (c \<in> set [CHR 0x20, CHR 0x09, CHR 0x0A, CHR 0x0B, CHR 0x0C, CHR 0x0D,
                          CHR 0x1C, CHR 0x1D, CHR 0x1E, CHR 0x1F])"

definition strip :: "string \<Rightarrow> string" where
  "strip s = rev (dropWhile is_space (rev (dropWhile is_space s)))"

definition col_mapping :: "(string \<times> string) list" where
  "col_mapping =
     [(''INDIAN IMPORTER NAME'', ''INDIAN IMPORTER NAME''),
      (''FOREIGN EXPORTER NAME'', ''FOREIGN EXPORTER NAME''),
      (''FOREIGN COUNTRY'', ''FOREIGN COUNTRY''),
      (''FOREIGN EXPORTER CITY'', ''FOREIGN EXPORTER CITY''),
      (''INDIAN PORT'', ''INDIAN PORT''),
      (''CHA NAME'', ''CHA NAME''),
      (''MODE'', ''MODE''),
      (''CITY'', ''CITY''),
      (''PRODUCT DESCRIPTION'', ''PRODUCT DESCRIPTION''),
      (''DATE'', ''DATE''),
      (''QUANTITY'', ''QUANTITY''),
      (''UNIT'', ''UNIT''),
      (''TOTAL ASS VALUE INR'', ''TOTAL ASS VALUE INR''),
      (''DUTY IN INR'', ''DUTY IN INR''),
      (''TOTAL ASS VALUE IN FOREIGN CURRENCY'', ''TOTAL ASS VALUE IN FOREIGN CURRENCY''),
      (''FOREIGN CURRENCY'', ''FOREIGN CURRENCY''),
      (''FOREIGN PORT'', ''FOREIGN PORT'')]"

definition numeric_cols :: "string list" where
  "numeric_cols =
     [''QUANTITY'', ''TOTAL ASS VALUE INR'', ''UNIT INR'',
      ''TOTAL ASS VALUE IN FOREIGN CURRENCY'', ''UNIT RATE IN FOREIGN CURRENCY'',
      ''DUTY IN INR'']"

definition string_cols_to_categorize :: "string list" where
  "string_cols_to_categorize =
     [''INDIAN IMPORTER NAME'', ''FOREIGN EXPORTER NAME'', ''INDIAN PORT'',
      ''FOREIGN COUNTRY'', ''CHA NAME'', ''FOREIGN EXPORTER CITY'', ''MODE'', ''CITY'',
      ''FOREIGN PORT'', ''UNIT'', ''FOREIGN CURRENCY'']"

text \<open>Line 69, \<^verbatim>\<open>df.columns = df.columns.str.strip()\<close>.\<close>

definition strip_columns :: "'n dataframe \<Rightarrow> 'n dataframe" where
  "strip_columns df = df\<lparr>columns := map strip (columns df)\<rparr>"

text \<open>Line 90: every label that is a key of \<open>col_mapping\<close> gets the value stored for it.\<close>

definition rename_columns :: "'n dataframe \<Rightarrow> 'n dataframe" where
  "rename_columns df =
     df\<lparr>columns := map (\<lambda>c. case map_of col_mapping c of Some v \<Rightarrow> v | None \<Rightarrow> c) (columns df)\<rparr>"

text \<open>
  \<^verbatim>\<open>df[c] = g(df[c])\<close> for a \<open>g\<close> that works cell by cell and gives the column the
  dtype \<open>t\<close>.
\<close>

definition assign :: "'n dataframe \<Rightarrow> string \<Rightarrow> dtype \<Rightarrow> ('n cell \<Rightarrow> 'n cell) \<Rightarrow> 'n dataframe" where
  "assign df c t g =
     (let i = col_pos c (columns df) in
      df\<lparr>dtypes := (dtypes df)[i := t],
         rows := map (\<lambda>r. set_cell i (g (cell_at i r)) r) (rows df)\<rparr>)"

text \<open>\<^verbatim>\<open>df.dropna(subset=[c], inplace=True)\<close>, line 94.\<close>

definition dropna :: "'n dataframe \<Rightarrow> string \<Rightarrow> 'n dataframe" where
  "dropna df c = keep df (\<lambda>r. get df c r \<noteq> NA)"

text \<open>
  \<^verbatim>\<open>pd.to_datetime(series, errors='coerce', dayfirst=dayfirst)\<close> for one value of the
  column: \<^verbatim>\<open>NaT\<close> where the value does not parse.
\<close>

definition parse_date :: "'n library \<Rightarrow> bool \<Rightarrow> 'n cell list \<Rightarrow> 'n cell \<Rightarrow> 'n cell" where
  "parse_date P dayfirst series v =
     (case to_datetime P dayfirst series v of Some t \<Rightarrow> Date t | None \<Rightarrow> NA)"

text \<open>Lines 92-94; line 93 passes \<^verbatim>\<open>dayfirst=True\<close>.\<close>

definition coerce_date :: "'n library \<Rightarrow> 'n dataframe \<Rightarrow> 'n dataframe" where
  "coerce_date P df =
     (if ''DATE'' \<in> set (columns df) then
        dropna (assign df ''DATE'' Datetime64 (parse_date P True (column_values df ''DATE''))) ''DATE''
      else df)"

text \<open>Line 103: the parsed column, \<^verbatim>\<open>NaN\<close> where a value does not parse.\<close>

definition parse_number :: "'n library \<Rightarrow> 'n cell list \<Rightarrow> 'n cell \<Rightarrow> 'n cell" where
  "parse_number P series v = (case to_numeric P series v of Some n \<Rightarrow> Num n | None \<Rightarrow> NA)"

text \<open>
  Line 104, \<^verbatim>\<open>df[col].fillna(0, inplace=True)\<close>, for one cell. The model follows
  pandas 2 without copy-on-write, where the call writes into the frame's column.
\<close>

definition fillna0 :: "'n::zero cell \<Rightarrow> 'n cell" where
  "fillna0 v = (if v = NA then Num 0 else v)"

text \<open>Lines 102-104 for one label of \<open>numeric_cols\<close>.\<close>

definition coerce_numeric :: "'n::zero library \<Rightarrow> 'n dataframe \<Rightarrow> string \<Rightarrow> 'n dataframe" where
  "coerce_numeric P df col =
     (if col \<in> set (columns df) then
        assign (assign df col Numeric (parse_number P (column_values df col))) col Numeric fillna0
      else df)"

text \<open>\<^verbatim>\<open>series.nunique()\<close>: the number of distinct values, the missing one not counted.\<close>

definition nunique :: "'n cell list \<Rightarrow> nat" where
  "nunique vs = length (remdups (filter (\<lambda>v. v \<noteq> NA) vs))"

text \<open>
  Lines 112-114 for one label. \<^verbatim>\<open>nunique() / len(...)\<close> divides two Python integers:
  it raises when the frame has no row, and the quotient is below 0.5 exactly when
  twice the first is below the second.
\<close>

definition categorize :: "'n dataframe \<Rightarrow> string \<Rightarrow> error + 'n dataframe" where
  "categorize df col =
     (if col \<in> set (columns df) \<and> dtype_of df col = Object then
        (if length (rows df) = 0 then Inl (Raised ''ZeroDivisionError'')
         else if 2 * nunique (column_values df col) < length (rows df)
         then Inr (df\<lparr>dtypes := (dtypes df)[col_pos col (columns df) := Category]\<rparr>)
         else Inr df)
      else Inr df)"

fun categorize_all :: "'n dataframe \<Rightarrow> string list \<Rightarrow> error + 'n dataframe" where
  "categorize_all df [] = Inr df"
| "categorize_all df (col # cols) =
     (case categorize df col of
        Inl e \<Rightarrow> Inl e
      | Inr df' \<Rightarrow> categorize_all df' cols)"

text \<open>
  Lines 63-67. When the name ends in none of the three suffixes no branch assigns
  \<^verbatim>\<open>df\<close>, and line 69 reads an unbound local.
\<close>

definition read_file :: "'n library \<Rightarrow> string \<Rightarrow> string \<Rightarrow> error + 'n dataframe" where
  "read_file P name raw =
     (if endswith name ''.csv'' \<or> endswith name ''.txt'' then read_csv P raw
      else if endswith name ''.xlsx'' then read_excel P raw
      else Inl (Raised ''UnboundLocalError''))"

text \<open>Lines 69-114, on the frame that was read.\<close>

definition normalize :: "'n::zero library \<Rightarrow> 'n dataframe \<Rightarrow> error + 'n dataframe" where
  "normalize P df =
     categorize_all
       (foldl (coerce_numeric P) (coerce_date P (rename_columns (strip_columns df))) numeric_cols)
       string_cols_to_categorize"

definition load_data :: "'n::zero library \<Rightarrow> string \<Rightarrow> string \<Rightarrow> error + 'n dataframe" where
  "load_data P name raw =
     (case read_file P name raw of
        Inl e \<Rightarrow> Inl e
      | Inr df \<Rightarrow> normalize P df)"

section \<open>A small library to run the model on\<close>

text \<open>
  The theorems below hold for every library. To run the model on sample inputs the
  parameters are filled in with stand-ins that are right on the inputs used:
  a reader that returns a given frame; a date parser for dates written with slashes,
  which reads a column the way pandas does; a number parser for strings of decimal
  digits; and a
  search for the regular expressions made of ordinary characters, \<^verbatim>\<open>.\<close>, \<^verbatim>\<open>|\<close> and
  escaped special characters, ignoring ASCII case.
\<close>

datatype atom = AnyChar | Lit char

definition backslash :: char where
  "backslash = CHR 0x5C"

definition re_special :: "char list" where
  "re_special = backslash # ''.^$*+?{}[]|()''"

fun cons_atom :: "atom \<Rightarrow> atom list list \<Rightarrow> atom list list" where
  "cons_atom a [] = [[a]]"
| "cons_atom a (b # bs) = (a # b) # bs"

text \<open>
  The branches of a pattern, each a list of atoms; \<open>None\<close> when the pattern uses
  syntax outside the fragment.
\<close>

fun branches :: "string \<Rightarrow> atom list list option" where
  "branches [] = Some [[]]"
| "branches [c] =
     (if c = CHR ''|'' then Some [[], []]
      else if c = CHR ''.'' then Some [[AnyChar]]
      else if c \<in> set re_special then None
      else Some [[Lit c]])"
| "branches (c # e # es) =
     (if c = CHR ''|'' then map_option (\<lambda>bs. [] # bs) (branches (e # es))
      else if c = backslash then
        (if e \<in> set re_special then map_option (cons_atom (Lit e)) (branches es) else None)
      else if c = CHR ''.'' then map_option (cons_atom AnyChar) (branches (e # es))
      else if c \<in> set re_special then None
      else map_option (cons_atom (Lit c)) (branches (e # es)))"

fun atom_ok :: "atom \<Rightarrow> char \<Rightarrow> bool" where
  "atom_ok AnyChar c = (c \<noteq> CHR 0x0A)"
| "atom_ok (Lit x) c = (lower_char x = lower_char c)"

fun match_here :: "atom list \<Rightarrow> string \<Rightarrow> bool" where
  "match_here [] s = True"
| "match_here (a # as) [] = False"
| "match_here (a # as) (c # cs) = (atom_ok a c \<and> match_here as cs)"

fun search :: "atom list \<Rightarrow> string \<Rightarrow> bool" where
  "search as [] = match_here as []"
| "search as (c # cs) = (match_here as (c # cs) \<or> search as cs)"

text \<open>
  A pattern that starts with a quantifier is rejected by \<^verbatim>\<open>re.compile\<close> (nothing to
  repeat); \<open>NotModelled\<close> marks the patterns the stand-in does not cover.
\<close>

definition re_fragment :: "string \<Rightarrow> error + (string \<Rightarrow> bool)" where
  "re_fragment pat =
     (case pat of
        [] \<Rightarrow> Inr (\<lambda>s. True)
      | c # cs \<Rightarrow>
          (if c \<in> set ''*+?'' then Inl (Raised ''re.error'')
           else (case branches pat of
                   None \<Rightarrow> Inl (Raised ''NotModelled'')
                 | Some bs \<Rightarrow> Inr (\<lambda>s. list_ex (\<lambda>b. search b s) bs))))"

definition digit_value :: "char \<Rightarrow> int option" where
  "digit_value c = map_of (zip ''0123456789'' [0, 1, 2, 3, 4, 5, 6, 7, 8, 9]) c"

fun decimal :: "int \<Rightarrow> string \<Rightarrow> int option" where
  "decimal acc [] = Some acc"
| "decimal acc (c # cs) =
     (case digit_value c of None \<Rightarrow> None | Some d \<Rightarrow> decimal (10 * acc + d) cs)"

fun sample_numeric :: "int cell \<Rightarrow> int option" where
  "sample_numeric (Str s) = (if s = [] then None else decimal 0 s)"
| "sample_numeric (Num n) = Some n"
| "sample_numeric v = None"

text \<open>
  Dates written as three numbers with slashes. \<open>strptime\<close> reads one string in one
  format, \<^verbatim>\<open>%d/%m/%Y\<close> or \<^verbatim>\<open>%m/%d/%Y\<close>, and gives the timestamp of that day's
  midnight.
\<close>

datatype date_format = DayFirst | MonthFirst

fun split_on :: "char \<Rightarrow> string \<Rightarrow> string list" where
  "split_on c [] = [[]]"
| "split_on c (x # xs) =
     (if x = c then [] # split_on c xs
      else (case split_on c xs of [] \<Rightarrow> [[x]] | w # ws \<Rightarrow> (x # w) # ws))"

definition number :: "string \<Rightarrow> int option" where
  "number s = (if s = [] then None else decimal 0 s)"

definition leap :: "int \<Rightarrow> bool" where
  "leap y = (if y mod 100 = 0 then y mod 400 = 0 else y mod 4 = 0)"

definition days_in_month :: "int \<Rightarrow> int \<Rightarrow> int" where
  "days_in_month y m =
     (if m = 2 then (if leap y then 29 else 28)
      else if m \<in> set [4, 6, 9, 11] then 30
      else 31)"

text \<open>The number of days from 1 January 1970 to the day \<open>d\<close> of month \<open>m\<close> of year \<open>y\<close>.\<close>

definition days_from_epoch :: "int \<Rightarrow> int \<Rightarrow> int \<Rightarrow> int" where
  "days_from_epoch y m d =
     (let y' = (if m \<le> 2 then y - 1 else y);
          era = y' div 400;
          yoe = y' - era * 400;
          doy = (153 * (if 2 < m then m - 3 else m + 9) + 2) div 5 + d - 1;
          doe = yoe * 365 + yoe div 4 - yoe div 100 + doy
      in era * 146097 + doe - 719468)"

definition midnight :: "int \<Rightarrow> int \<Rightarrow> int \<Rightarrow> int option" where
  "midnight y m d =
     (if 1 \<le> m \<and> m \<le> 12 \<and> 1 \<le> d \<and> d \<le> days_in_month y m
      then Some (86400000000000 * days_from_epoch y m d)
      else None)"

definition strptime :: "date_format \<Rightarrow> string \<Rightarrow> int option" where
  "strptime f s =
     (case split_on (CHR ''/'') s of
        [a, b, y] \<Rightarrow>
          (if length a \<le> 2 \<and> length b \<le> 2 \<and> length y = 4 then
             (case number a of
                None \<Rightarrow> None
              | Some i \<Rightarrow>
                  (case number b of
                     None \<Rightarrow> None
                   | Some j \<Rightarrow>
                       (case number y of
                          None \<Rightarrow> None
                        | Some k \<Rightarrow>
                            (case f of DayFirst \<Rightarrow> midnight k j i | MonthFirst \<Rightarrow> midnight k i j))))
           else None)
      | _ \<Rightarrow> None)"

text \<open>
  The format pandas guesses from one string: the one the flag prefers when the string
  can be read in it, else the other one when the string can be read in that.
\<close>

definition guess_format :: "bool \<Rightarrow> string \<Rightarrow> date_format option" where
  "guess_format dayfirst s =
     (let preferred = (if dayfirst then DayFirst else MonthFirst);
          other = (if dayfirst then MonthFirst else DayFirst)
      in if strptime preferred s \<noteq> None then Some preferred
         else if strptime other s \<noteq> None then Some other
         else None)"

text \<open>
  The format of a column is guessed from its first value that is not missing; every
  value is then read in that format, and a value that does not fit it is \<^verbatim>\<open>NaT\<close>.
  When no format can be guessed, each value is read by itself.
\<close>

definition column_format :: "bool \<Rightarrow> int cell list \<Rightarrow> date_format option" where
  "column_format dayfirst series =
     (case find (\<lambda>v. v \<noteq> NA) series of
        Some (Str s) \<Rightarrow> guess_format dayfirst s
      | _ \<Rightarrow> None)"

fun read_date :: "bool \<Rightarrow> date_format option \<Rightarrow> int cell \<Rightarrow> int option" where
  "read_date dayfirst (Some f) (Str s) = strptime f s"
| "read_date dayfirst None (Str s) =
     (case guess_format dayfirst s of None \<Rightarrow> None | Some f \<Rightarrow> strptime f s)"
| "read_date dayfirst fmt (Date t) = Some t"
| "read_date dayfirst fmt v = None"

definition sample_datetime :: "bool \<Rightarrow> int cell list \<Rightarrow> int cell \<Rightarrow> int option" where
  "sample_datetime dayfirst series v = read_date dayfirst (column_format dayfirst series) v"

text \<open>\<^verbatim>\<open>pd.to_datetime(x)\<close> of one value; \<^verbatim>\<open>dayfirst\<close> is \<^verbatim>\<open>False\<close> by default.\<close>

fun sample_timestamp :: "int cell \<Rightarrow> error + int option" where
  "sample_timestamp (Date t) = Inr (Some t)"
| "sample_timestamp (Num n) = Inr (Some n)"
| "sample_timestamp NA = Inr None"
| "sample_timestamp (Str s) =
     (case read_date False None (Str s) of
        None \<Rightarrow> Inl (Raised ''ValueError'')
      | Some t \<Rightarrow> Inr (Some t))"

definition sample_lib :: "int dataframe \<Rightarrow> int library" where
  "sample_lib parsed =
     \<lparr>read_csv = (\<lambda>raw. Inr parsed),
      read_excel = (\<lambda>raw. Inr parsed),
      to_datetime = sample_datetime,
      to_numeric = (\<lambda>series. sample_numeric),
      to_timestamp = sample_timestamp,
      repr_str = (\<lambda>v. ''nan''),
      re_compile = re_fragment\<rparr>"

text \<open>A loaded frame of three shipments, and the library that goes with it.\<close>

definition shipments :: "int dataframe" where
  "shipments =
     \<lparr>columns = [''DATE'', ''INDIAN IMPORTER NAME'', ''INDIAN PORT'', ''QUANTITY''],
      dtypes = [Datetime64, Object, Object, Numeric],
      rows = [[Date 1704067200000000000, Str ''ACME Corp'', Str ''Mumbai'', Num 5],
              [Date 1705276800000000000, Str ''ABC Ltd'', Str ''Mumbai Port'', Num 0],
              [Date 1706659200000000000, Str ''Zenith'', Str ''Chennai'', Num 7]]\<rparr>"

definition pandas :: "int library" where
  "pandas = sample_lib shipments"

text \<open>
  A frame as the reader returns it for a small file: a label with a trailing blank,
  dates as day-first strings (one is not a date), and quantities as strings (one is
  not a number, one is missing); and the frame \<^verbatim>\<open>load_data\<close> makes of it.
\<close>

definition upload :: "int dataframe" where
  "upload =
     \<lparr>columns = [''DATE '', ''MODE'', ''QUANTITY''],
      dtypes = [Object, Object, Object],
      rows = [[Str ''01/01/2024'', Str ''SEA'', Str ''12''],
              [Str ''not a date'', Str ''AIR'', Str ''7''],
              [Str ''15/01/2024'', Str ''SEA'', Str ''n/a''],
              [Str ''31/01/2024'', Str ''SEA'', NA]]\<rparr>"

definition loaded :: "int dataframe" where
  "loaded =
     \<lparr>columns = [''DATE'', ''MODE'', ''QUANTITY''],
      dtypes = [Datetime64, Category, Numeric],
      rows = [[Date 1704067200000000000, Str ''SEA'', Num 12],
              [Date 1705276800000000000, Str ''SEA'', Num 0],
              [Date 1706659200000000000, Str ''SEA'', Num 0]]\<rparr>"


text \<open>What the reader returns for a file that has a header line and no data line.\<close>

definition header_only :: "int dataframe" where
  "header_only = \<lparr>columns = [''MODE'', ''CITY''], dtypes = [Object, Object], rows = []\<rparr>"

section \<open>Notions used in the statements\<close>

text \<open>
  The \<^verbatim>\<open>DATE\<close> cells are timestamps or missing, as they are in every frame whose
  \<^verbatim>\<open>DATE\<close> column has the dtype \<^verbatim>\<open>datetime64\<close>, which line 93 gives it.
\<close>

definition date_typed :: "'n dataframe \<Rightarrow> bool" where
  "date_typed df =
     list_all (\<lambda>r. case get df ''DATE'' r of Str x \<Rightarrow> False | Num x \<Rightarrow> False | _ \<Rightarrow> True) (rows df)"

text \<open>
  What one filter does to a frame depends on the frame's labels only: there is one
  test \<open>p\<close> of rows such that the filter keeps the rows passing \<open>p\<close>, whatever the
  rows of the frame are.
\<close>

definition same_test ::
  "('n dataframe \<Rightarrow> error + 'n dataframe) \<Rightarrow> 'n dataframe \<Rightarrow> 'n dataframe \<Rightarrow> bool" where
  "same_test F df df' =
     (\<exists>p. df' = keep df p
        \<and> (\<forall>d. columns d = columns df \<longrightarrow> date_typed d \<longrightarrow> F d = Inr (keep d p))
        \<and> (\<forall>d d'. columns d = columns df \<longrightarrow> F d = Inr d' \<longrightarrow> d' = keep d p))"

text \<open>The cell of a row lies in the closed range of two timestamps.\<close>

fun in_range :: "int \<Rightarrow> int \<Rightarrow> 'n cell \<Rightarrow> bool" where
  "in_range s e (Date d) = (s \<le> d \<and> d \<le> e)"
| "in_range s e v = False"


fun is_num :: "'n cell \<Rightarrow> bool" where
  "is_num (Num n) = True"
| "is_num v = False"

text \<open>Lines 103-104 for one cell: the parsed number, zero where the value does not parse.\<close>

definition number_cell :: "'n::zero library \<Rightarrow> 'n cell list \<Rightarrow> 'n cell \<Rightarrow> 'n cell" where
  "number_cell P series v = (case to_numeric P series v of Some n \<Rightarrow> Num n | None \<Rightarrow> Num 0)"

text \<open>The result of a filter with the dtypes replaced; an exception stays as it is.\<close>

definition retyped :: "dtype list \<Rightarrow> error + 'n dataframe \<Rightarrow> error + 'n dataframe" where
  "retyped t res = (case res of Inl e \<Rightarrow> Inl e | Inr d \<Rightarrow> Inr (d\<lparr>dtypes := t\<rparr>))"

text \<open>A pattern without a character that is special in a regular expression.\<close>

definition plain :: "string \<Rightarrow> bool" where
  "plain pat = list_all (\<lambda>c. c \<notin> set re_special) pat"

section \<open>Filtering: what one filter does\<close>

lemma get_cong: "columns d = columns df \<Longrightarrow> get d c = get df c"
  by (simp add: get_def fun_eq_iff)

lemma keep_simps [simp]:
  "columns (keep df p) = columns df"
  "dtypes (keep df p) = dtypes df"
  "rows (keep df p) = filter p (rows df)"
  by (simp_all add: keep_def)

lemma keep_True [simp]: "keep df (\<lambda>r. True) = df"
  by (simp add: keep_def)

lemma keep_keep: "keep (keep df p) q = keep df (\<lambda>r. p r \<and> q r)"
  by (simp add: keep_def conj_commute)

lemma keep_commute: "keep (keep df p) q = keep (keep df q) p"
  by (simp add: keep_keep conj_commute)

lemma select_rows_Inr:
  "select_rows q rs = Inr rs' \<Longrightarrow> rs' = filter (\<lambda>r. q r = Inr True) rs"
  by (induction rs arbitrary: rs') (auto split: sum.splits if_splits)

lemma select_rows_total:
  "list_all (\<lambda>r. \<not> isl (q r)) rs \<Longrightarrow> select_rows q rs = Inr (filter (\<lambda>r. q r = Inr True) rs)"
  by (induction rs) (auto split: sum.splits)

lemma between_typed:
  "(case v of Str x \<Rightarrow> False | Num x \<Rightarrow> False | _ \<Rightarrow> True) \<Longrightarrow> \<not> isl (between s e v)"
  by (cases v) auto

lemma date_typed_keep: "date_typed df \<Longrightarrow> date_typed (keep df p)"
  by (simp add: date_typed_def list_all_iff get_def)

lemma same_test_keep:
  assumes "\<And>d. columns d = columns df \<Longrightarrow> F d = Inr (keep d p)" and "F df = Inr df'"
  shows "same_test F df df'"
  unfolding same_test_def using assms by (intro exI[of _ p]) auto

lemma same_test_skip:
  assumes "\<And>d. columns d = columns df \<Longrightarrow> F d = Inr d" and "F df = Inr df'"
  shows "same_test F df df'"
  using same_test_keep[of df F "\<lambda>r. True" df'] assms by simp

lemma select_date:
  assumes "columns d = columns df"
  shows "select_rows (\<lambda>r. between s e (get d ''DATE'' r)) (rows d) = Inr rs
     \<Longrightarrow> d\<lparr>rows := rs\<rparr> = keep d (\<lambda>r. between s e (get df ''DATE'' r) = Inr True)"
    and "date_typed d \<Longrightarrow> select_rows (\<lambda>r. between s e (get d ''DATE'' r)) (rows d)
       = Inr (filter (\<lambda>r. between s e (get df ''DATE'' r) = Inr True) (rows d))"
proof -
  have g: "get d ''DATE'' = get df ''DATE''" using assms by (rule get_cong)
  show "select_rows (\<lambda>r. between s e (get d ''DATE'' r)) (rows d) = Inr rs
     \<Longrightarrow> d\<lparr>rows := rs\<rparr> = keep d (\<lambda>r. between s e (get df ''DATE'' r) = Inr True)"
    by (simp add: g keep_def select_rows_Inr)
  show "date_typed d \<Longrightarrow> select_rows (\<lambda>r. between s e (get d ''DATE'' r)) (rows d)
       = Inr (filter (\<lambda>r. between s e (get df ''DATE'' r) = Inr True) (rows d))"
    unfolding g
    by (rule select_rows_total) (simp add: date_typed_def g list_all_iff between_typed)
qed

lemma date_range_skip:
  assumes "\<not> (''DATE'' \<in> set (columns df) \<and> (\<exists>c0 c1. item c 0 = Inr (Some c0) \<and> item c (Suc 0) = Inr (Some c1)))"
    and "date_range P df c = Inr df'" and "columns d = columns df"
  shows "date_range P d c = Inr d"
proof (cases "''DATE'' \<in> set (columns df)")
  case False
  then show ?thesis using assms(3) by (simp add: date_range_def)
next
  case True
  note D = this
  show ?thesis
  proof (cases "item c 0")
    case (Inl e)
    then show ?thesis using assms(2) D by (simp add: date_range_def)
  next
    case (Inr a)
    note A = this
    show ?thesis
    proof (cases a)
      case None
      then show ?thesis using A D assms(3) by (simp add: date_range_def)
    next
      case (Some c0)
      note S = this
      show ?thesis
      proof (cases "item c (Suc 0)")
        case (Inl e)
        then show ?thesis using assms(2) D A S by (simp add: date_range_def)
      next
        case (Inr b)
        then have "b = None" using assms(1) D A S by (cases b) auto
        then show ?thesis using Inr A S D assms(3) by (simp add: date_range_def)
      qed
    qed
  qed
qed

lemma date_range_char:
  assumes "date_range P df c = Inr df'"
  shows "same_test (\<lambda>d. date_range P d c) df df'"
proof (cases "''DATE'' \<in> set (columns df) \<and> (\<exists>c0 c1. item c 0 = Inr (Some c0) \<and> item c (Suc 0) = Inr (Some c1))")
  case False
  have "\<And>d. columns d = columns df \<Longrightarrow> date_range P d c = Inr d"
    using False assms by (rule date_range_skip)
  then show ?thesis using assms by (rule same_test_skip)
next
  case True
  then obtain c0 c1 where i: "''DATE'' \<in> set (columns df)" "item c 0 = Inr (Some c0)"
      "item c (Suc 0) = Inr (Some c1)" by blast
  have u: "date_range P d c =
        (case to_timestamp P c0 of Inl e \<Rightarrow> Inl e
         | Inr s \<Rightarrow> (case to_timestamp P c1 of Inl e \<Rightarrow> Inl e
            | Inr e \<Rightarrow> (case select_rows (\<lambda>r. between s e (get d ''DATE'' r)) (rows d) of
                 Inl e \<Rightarrow> Inl e | Inr rs \<Rightarrow> Inr (d\<lparr>rows := rs\<rparr>))))"
    if "columns d = columns df" for d
    using that i by (simp add: date_range_def)
  from assms u[OF refl] obtain s e where t: "to_timestamp P c0 = Inr s" "to_timestamp P c1 = Inr e"
    by (cases "to_timestamp P c0"; cases "to_timestamp P c1") simp_all
  let ?p = "\<lambda>r. between s e (get df ''DATE'' r) = Inr True"
  have c: "d' = keep d ?p" if "columns d = columns df" "date_range P d c = Inr d'" for d d'
  proof -
    from that u[OF that(1)] t obtain rs where
      "select_rows (\<lambda>r. between s e (get d ''DATE'' r)) (rows d) = Inr rs" "d' = d\<lparr>rows := rs\<rparr>"
      by (cases "select_rows (\<lambda>r. between s e (get d ''DATE'' r)) (rows d)") simp_all
    then show ?thesis using select_date(1)[OF that(1)] by simp
  qed
  have b: "date_range P d c = Inr (keep d ?p)" if "columns d = columns df" "date_typed d" for d
    using u[OF that(1)] t select_date(2)[OF that(1) that(2), of s e]
    by (simp add: keep_def)
  show ?thesis unfolding same_test_def using c[OF refl assms] b c by blast
qed

lemma contains_char:
  assumes "contains P df column pat = Inr df'"
  shows "same_test (\<lambda>d. contains P d column pat) df df'"
proof -
  from assms obtain found where f: "re_compile P pat = Inr found"
    by (cases "re_compile P pat") (simp_all add: contains_def)
  have "contains P d column pat = Inr (keep d (\<lambda>r. found (astype_str P (get df column r))))"
    if "columns d = columns df" for d
    using get_cong[OF that, of column] by (simp add: contains_def f)
  then show ?thesis using assms by (rule same_test_keep)
qed

lemma same_test_eq:
  assumes "same_test G df df'" and "\<And>d. columns d = columns df \<Longrightarrow> F d = G d"
  shows "same_test F df df'"
proof -
  from assms(1) obtain p where p: "df' = keep df p"
    "\<And>d. columns d = columns df \<Longrightarrow> date_typed d \<Longrightarrow> G d = Inr (keep d p)"
    "\<And>d d'. columns d = columns df \<Longrightarrow> G d = Inr d' \<Longrightarrow> d' = keep d p"
    unfolding same_test_def by blast
  show ?thesis unfolding same_test_def
  proof (intro exI[of _ p] conjI allI impI)
    show "df' = keep df p" by (rule p(1))
    show "F d = Inr (keep d p)" if "columns d = columns df" "date_typed d" for d
      using that p(2) assms(2) by simp
    show "d' = keep d p" if "columns d = columns df" "F d = Inr d'" for d d'
      using that p(3) assms(2) by simp
  qed
qed

lemma awp_machines_char:
  assumes "awp_machines P df c = Inr df'"
  shows "same_test (\<lambda>d. awp_machines P d c) df df'"
proof (cases "''PRODUCT DESCRIPTION'' \<in> set (columns df) \<and> \<not> no_criterion c")
  case False
  have "\<And>d. columns d = columns df \<Longrightarrow> awp_machines P d c = Inr d"
    using False by (auto simp: awp_machines_def)
  then show ?thesis using assms by (rule same_test_skip)
next
  case True
  with assms obtain ks where k: "lower_keywords c = Inr ks"
    by (cases "lower_keywords c") (simp_all add: awp_machines_def)
  have e: "awp_machines P d c = contains P d ''PRODUCT DESCRIPTION'' (join_bar ks)"
    if "columns d = columns df" for d
    using that True k by (simp add: awp_machines_def)
  have "same_test (\<lambda>d. contains P d ''PRODUCT DESCRIPTION'' (join_bar ks)) df df'"
    using assms e[OF refl] by (simp add: contains_char)
  then show ?thesis using e by (rule same_test_eq)
qed

lemma isin_char:
  assumes "column \<in> set (columns df)"
  shows "same_test (\<lambda>d. if column \<in> set (columns d) then Inr (isin d column vs) else Inr d) df (isin df column vs)"
proof -
  have "(if column \<in> set (columns d) then Inr (isin d column vs) else Inr d)
       = (Inr (keep d (\<lambda>r. Some (get df column r) \<in> set vs)) :: error + 'a dataframe)"
    if "columns d = columns df" for d
    using assms that get_cong[OF that, of column] by (simp add: isin_def)
  moreover have "(if column \<in> set (columns df) then Inr (isin df column vs) else Inr df)
       = (Inr (isin df column vs) :: error + 'a dataframe)"
    using assms by simp
  ultimately show ?thesis
    by (rule same_test_keep)
qed

lemma apply_filter_unfold:
  "apply_filter P d (column, criterion) =
     (if no_criterion criterion then Inr d
      else if column \<notin> set (columns d) \<and> column \<noteq> ''DATE_RANGE'' \<and> column \<noteq> ''AWP_MACHINES'' then Inr d
      else if column = ''DATE_RANGE'' then date_range P d criterion
      else if column = ''AWP_MACHINES'' then awp_machines P d criterion
      else (case criterion of
              CStr pat \<Rightarrow> contains P d column pat
            | CSeq vs \<Rightarrow> (if column \<in> set (columns d) then Inr (isin d column vs) else Inr d)
            | CNone \<Rightarrow> Inr d))"
  by (simp add: apply_filter_def)

lemma apply_filter_char:
  assumes "apply_filter P df f = Inr df'"
  shows "same_test (\<lambda>d. apply_filter P d f) df df'"
proof -
  obtain column criterion where f: "f = (column, criterion)" by (cases f)
  show ?thesis
  proof (cases "no_criterion criterion \<or> (column \<notin> set (columns df) \<and> column \<noteq> ''DATE_RANGE'' \<and> column \<noteq> ''AWP_MACHINES'')")
    case True
    have "apply_filter P d f = Inr d" if "columns d = columns df" for d
      unfolding f apply_filter_unfold using True that by presburger
    then show ?thesis using assms by (rule same_test_skip)
  next
    case False
    note active = this
    show ?thesis
    proof (cases "column = ''DATE_RANGE''")
      case True
      have e: "apply_filter P d f = date_range P d criterion" if "columns d = columns df" for d
        unfolding f apply_filter_unfold using True active that by presburger
      have "same_test (\<lambda>d. date_range P d criterion) df df'"
        using assms e[OF refl] by (simp add: date_range_char)
      then show ?thesis using e by (rule same_test_eq)
    next
      case False
      note nd = this
      show ?thesis
      proof (cases "column = ''AWP_MACHINES''")
        case True
        have e: "apply_filter P d f = awp_machines P d criterion" if "columns d = columns df" for d
          unfolding f apply_filter_unfold using True nd active that by presburger
        have "same_test (\<lambda>d. awp_machines P d criterion) df df'"
          using assms e[OF refl] by (simp add: awp_machines_char)
        then show ?thesis using e by (rule same_test_eq)
      next
        case False
        note na = this
        have col: "column \<in> set (columns df)" using active nd na by blast
        have e0: "apply_filter P d f = (case criterion of
              CStr pat \<Rightarrow> contains P d column pat
            | CSeq vs \<Rightarrow> (if column \<in> set (columns d) then Inr (isin d column vs) else Inr d)
            | CNone \<Rightarrow> Inr d)" if "columns d = columns df" for d
          unfolding f apply_filter_unfold using na nd active that by presburger
        show ?thesis
        proof (cases criterion)
          case CNone
          then show ?thesis using active by simp
        next
          case (CStr pat)
          have e: "apply_filter P d f = contains P d column pat" if "columns d = columns df" for d
            using e0[OF that] CStr by simp
          have "same_test (\<lambda>d. contains P d column pat) df df'"
            using assms e[OF refl] by (simp add: contains_char)
          then show ?thesis using e by (rule same_test_eq)
        next
          case (CSeq vs)
          have e: "apply_filter P d f
             = (if column \<in> set (columns d) then Inr (isin d column vs) else Inr d)"
            if "columns d = columns df" for d
            using e0[OF that] CSeq by simp
          have "df' = isin df column vs" using assms e[OF refl] col by simp
          then have "same_test (\<lambda>d. if column \<in> set (columns d) then Inr (isin d column vs) else Inr d) df df'"
            using isin_char[OF col] by simp
          then show ?thesis using e by (rule same_test_eq)
        qed
      qed
    qed
  qed
qed

lemma apply_filter_keep:
  "apply_filter P df f = Inr df' \<Longrightarrow> \<exists>p. df' = keep df p"
  using apply_filter_char[of P df f df'] unfolding same_test_def by blast

lemma apply_filters_keep:
  "apply_filters P df fs = Inr df' \<Longrightarrow> \<exists>p. df' = keep df p"
proof (induction fs arbitrary: df)
  case Nil
  then have "df' = keep df (\<lambda>r. True)" by simp
  then show ?case by blast
next
  case (Cons f fs)
  from Cons.prems obtain d1 where d1: "apply_filter P df f = Inr d1" "apply_filters P d1 fs = Inr df'"
    by (cases "apply_filter P df f") simp_all
  from apply_filter_keep[OF d1(1)] obtain p where p: "d1 = keep df p" by blast
  from Cons.IH[OF d1(2)] obtain q where "df' = keep d1 q" by blast
  then have "df' = keep df (\<lambda>r. p r \<and> q r)" by (simp add: p keep_keep)
  then show ?case by blast
qed

lemma no_criterion_skip: "no_criterion c \<Longrightarrow> apply_filter P df (k, c) = Inr df"
  by (simp add: apply_filter_def)

lemma apply_filters_append:
  "apply_filters P df (fs @ gs) =
     (case apply_filters P df fs of Inl e \<Rightarrow> Inl e | Inr d \<Rightarrow> apply_filters P d gs)"
  by (induction fs arbitrary: df) (auto split: sum.splits)

lemma pair_filters:
  "apply_filters P T [a, b] =
     (case apply_filter P T a of Inl e \<Rightarrow> Inl e | Inr T1 \<Rightarrow> apply_filter P T1 b)"
  by (simp split: sum.splits)

lemma both_orders:
  assumes "apply_filters P T [a, b] = Inr R" and "apply_filters P T [b, a] = Inr R'"
  shows "R = R'"
proof -
  from assms(1) obtain T1 where 1: "apply_filter P T a = Inr T1" "apply_filter P T1 b = Inr R"
    unfolding pair_filters by (cases "apply_filter P T a") simp_all
  from assms(2) obtain T2 where 2: "apply_filter P T b = Inr T2" "apply_filter P T2 a = Inr R'"
    unfolding pair_filters by (cases "apply_filter P T b") simp_all
  from apply_filter_char[OF 1(1)] obtain p where p: "T1 = keep T p"
    "\<And>d d'. columns d = columns T \<Longrightarrow> apply_filter P d a = Inr d' \<Longrightarrow> d' = keep d p"
    unfolding same_test_def by blast
  from apply_filter_char[OF 2(1)] obtain q where q: "T2 = keep T q"
    "\<And>d d'. columns d = columns T \<Longrightarrow> apply_filter P d b = Inr d' \<Longrightarrow> d' = keep d q"
    unfolding same_test_def by blast
  have "R = keep T1 q" using q(2)[of T1 R] 1(2) p(1) by simp
  moreover have "R' = keep T2 p" using p(2)[of T2 R'] 2(2) q(1) by simp
  ultimately show ?thesis using p(1) q(1) by (simp add: keep_commute)
qed

lemma swap_typed:
  assumes "date_typed T" and "apply_filters P T [a, b] = Inr R"
  shows "apply_filters P T [b, a] = Inr R"
proof -
  from assms(2) obtain T1 where 1: "apply_filter P T a = Inr T1" "apply_filter P T1 b = Inr R"
    unfolding pair_filters by (cases "apply_filter P T a") simp_all
  from apply_filter_char[OF 1(1)] obtain p where p: "T1 = keep T p"
    "\<And>d. columns d = columns T \<Longrightarrow> date_typed d \<Longrightarrow> apply_filter P d a = Inr (keep d p)"
    unfolding same_test_def by blast
  from apply_filter_char[OF 1(2)] obtain q where q: "R = keep T1 q"
    "\<And>d. columns d = columns T1 \<Longrightarrow> date_typed d \<Longrightarrow> apply_filter P d b = Inr (keep d q)"
    unfolding same_test_def by blast
  have b: "apply_filter P T b = Inr (keep T q)" using q(2)[of T] p(1) assms(1) by simp
  have a: "apply_filter P (keep T q) a = Inr (keep (keep T q) p)"
    using p(2)[of "keep T q"] date_typed_keep[OF assms(1)] by simp
  show ?thesis unfolding pair_filters using a b q(1) p(1) by (simp add: keep_commute)
qed

lemma between_in_range: "(between (Some s) (Some e) v = Inr True) = in_range s e v"
  by (cases v) auto

lemmas sample_defs = pandas_def sample_lib_def shipments_def apply_filter_def contains_def keep_def get_def
      cell_at_def astype_str_def re_fragment_def lower_char_def ascii_upper_def ascii_lower_def
      re_special_def backslash_def isin_def date_range_def awp_machines_def lower_def

section \<open>Filtering: the claims\<close>

text \<open>
  Claim C5. Filtering with no criteria returns the frame itself. A criterion that is
  \<^verbatim>\<open>None\<close>, the empty string or an empty list or tuple is skipped, under any key
  and at any place of the criteria: alone it returns the frame (it never raises and
  never drops a row), and the criteria with it give what the criteria without it give.
\<close>

theorem empty_criterion_is_noop:
  "apply_filters P T [] = Inr T
   \<and> (c = CNone \<or> c = CStr [] \<or> c = CSeq [] \<longrightarrow>
        apply_filters P T [(k, c)] = Inr T
        \<and> apply_filters P T (fs @ (k, c) # gs) = apply_filters P T (fs @ gs))"
proof (intro conjI impI)
  show "apply_filters P T [] = Inr T" by simp
next
  assume "c = CNone \<or> c = CStr [] \<or> c = CSeq []"
  then have n: "no_criterion c" by auto
  show "apply_filters P T [(k, c)] = Inr T" by (simp add: no_criterion_skip[OF n])
  have step: "apply_filters P d ((k, c) # gs) = apply_filters P d gs" for d
    by (simp add: no_criterion_skip[OF n])
  show "apply_filters P T (fs @ (k, c) # gs) = apply_filters P T (fs @ gs)"
    unfolding apply_filters_append by (simp only: step)
qed

theorem empty_criterion_is_noop_witness:
  "apply_filters pandas shipments [] = Inr shipments
   \<and> apply_filters pandas shipments [(''INDIAN PORT'', CSeq [])] = Inr shipments
   \<and> apply_filters pandas shipments [(''INDIAN IMPORTER NAME'', CStr ''acme''), (''INDIAN PORT'', CSeq [])]
       = apply_filters pandas shipments [(''INDIAN IMPORTER NAME'', CStr ''acme'')]"
  using empty_criterion_is_noop[of pandas shipments "CSeq []" "''INDIAN PORT''" "[(''INDIAN IMPORTER NAME'', CStr ''acme'')]" "[]"]
  by simp

text \<open>
  Claim C6. Filtering by two criteria is filtering by the first and then filtering the
  result by the second (an exception of the first is the exception of the whole). When
  both orders of the two criteria return a frame, it is the same frame; and on a frame
  whose \<^verbatim>\<open>DATE\<close> cells are timestamps or missing, one order returns a frame exactly
  when the other does.
\<close>

theorem filters_compose_and_commute:
  "apply_filters P T [(k1, c1), (k2, c2)] =
      (case apply_filters P T [(k1, c1)] of
         Inl e \<Rightarrow> Inl e
       | Inr T1 \<Rightarrow> apply_filters P T1 [(k2, c2)])
   \<and> (apply_filters P T [(k1, c1), (k2, c2)] = Inr R \<and> apply_filters P T [(k2, c2), (k1, c1)] = Inr R'
        \<longrightarrow> R = R')
   \<and> (date_typed T \<longrightarrow>
        (apply_filters P T [(k1, c1), (k2, c2)] = Inr R) = (apply_filters P T [(k2, c2), (k1, c1)] = Inr R))"
proof (intro conjI impI)
  show "apply_filters P T [(k1, c1), (k2, c2)] =
      (case apply_filters P T [(k1, c1)] of Inl e \<Rightarrow> Inl e | Inr T1 \<Rightarrow> apply_filters P T1 [(k2, c2)])"
    by (simp split: sum.splits)
next
  assume "apply_filters P T [(k1, c1), (k2, c2)] = Inr R \<and> apply_filters P T [(k2, c2), (k1, c1)] = Inr R'"
  then show "R = R'" using both_orders by blast
next
  assume "date_typed T"
  then show "(apply_filters P T [(k1, c1), (k2, c2)] = Inr R) = (apply_filters P T [(k2, c2), (k1, c1)] = Inr R)"
    using swap_typed by blast
qed

theorem filters_compose_and_commute_witness:
  "date_typed shipments
   \<and> apply_filters pandas shipments [(''INDIAN PORT'', CSeq [Some (Str ''Mumbai'')]), (''DATE_RANGE'', CSeq [Some (Date 1704067200000000000), Some (Date 1705276800000000000)])]
     = Inr (shipments\<lparr>rows := [[Date 1704067200000000000, Str ''ACME Corp'', Str ''Mumbai'', Num 5]]\<rparr>)
   \<and> apply_filters pandas shipments [(''DATE_RANGE'', CSeq [Some (Date 1704067200000000000), Some (Date 1705276800000000000)]), (''INDIAN PORT'', CSeq [Some (Str ''Mumbai'')])]
     = Inr (shipments\<lparr>rows := [[Date 1704067200000000000, Str ''ACME Corp'', Str ''Mumbai'', Num 5]]\<rparr>)"
proof -
  have t: "date_typed shipments"
    by (simp add: date_typed_def shipments_def get_def cell_at_def)
  have e: "apply_filters pandas shipments [(''INDIAN PORT'', CSeq [Some (Str ''Mumbai'')]), (''DATE_RANGE'', CSeq [Some (Date 1704067200000000000), Some (Date 1705276800000000000)])]
     = Inr (shipments\<lparr>rows := [[Date 1704067200000000000, Str ''ACME Corp'', Str ''Mumbai'', Num 5]]\<rparr>)"
    by (simp add: sample_defs)
  show ?thesis
    using t e filters_compose_and_commute[of pandas shipments "''INDIAN PORT''" "CSeq [Some (Str ''Mumbai'')]" "''DATE_RANGE''"
        "CSeq [Some (Date 1704067200000000000), Some (Date 1705276800000000000)]"
        "shipments\<lparr>rows := [[Date 1704067200000000000, Str ''ACME Corp'', Str ''Mumbai'', Num 5]]\<rparr>"]
    by blast
qed

text \<open>
  Claim C7. On a frame with a \<^verbatim>\<open>DATE\<close> column of timestamps, a \<^verbatim>\<open>DATE_RANGE\<close>
  pair whose two bounds convert to the timestamps \<open>s\<close> and \<open>e\<close> keeps exactly the rows
  whose date \<open>d\<close> has \<open>s \<le> d \<le> e\<close>: both boundaries are kept. Without a \<^verbatim>\<open>DATE\<close>
  column the criterion is skipped whatever it is, and so is a pair with \<^verbatim>\<open>None\<close> as
  either bound.
\<close>

theorem date_range_inclusive:
  "(''DATE'' \<in> set (columns T) \<and> date_typed T
      \<and> to_timestamp P a = Inr (Some s) \<and> to_timestamp P b = Inr (Some e) \<longrightarrow>
      apply_filters P T [(''DATE_RANGE'', CSeq [Some a, Some b])]
        = Inr (keep T (\<lambda>r. in_range s e (get T ''DATE'' r))))
   \<and> (''DATE'' \<notin> set (columns T) \<longrightarrow> apply_filters P T [(''DATE_RANGE'', c)] = Inr T)
   \<and> apply_filters P T [(''DATE_RANGE'', CSeq [None, y])] = Inr T
   \<and> apply_filters P T [(''DATE_RANGE'', CSeq [x, None])] = Inr T"
proof (intro conjI impI)
  assume h: "''DATE'' \<in> set (columns T) \<and> date_typed T
      \<and> to_timestamp P a = Inr (Some s) \<and> to_timestamp P b = Inr (Some e)"
  then have "select_rows (\<lambda>r. between (Some s) (Some e) (get T ''DATE'' r)) (rows T)
       = Inr (filter (\<lambda>r. between (Some s) (Some e) (get T ''DATE'' r) = Inr True) (rows T))"
    using select_date(2)[OF refl, of T "Some s" "Some e"] by simp
  then have "date_range P T (CSeq [Some a, Some b]) = Inr (keep T (\<lambda>r. in_range s e (get T ''DATE'' r)))"
    using h by (simp add: date_range_def keep_def between_in_range)
  then show "apply_filters P T [(''DATE_RANGE'', CSeq [Some a, Some b])]
        = Inr (keep T (\<lambda>r. in_range s e (get T ''DATE'' r)))"
    by (simp add: apply_filter_unfold)
next
  assume "''DATE'' \<notin> set (columns T)"
  then have "date_range P T c = Inr T" by (simp add: date_range_def)
  then show "apply_filters P T [(''DATE_RANGE'', c)] = Inr T"
    by (simp add: apply_filter_unfold)
next
  have "date_range P T (CSeq [None, y]) = Inr T" by (simp add: date_range_def)
  then show "apply_filters P T [(''DATE_RANGE'', CSeq [None, y])] = Inr T"
    by (simp add: apply_filter_unfold)
next
  have "date_range P T (CSeq [x, None]) = Inr T"
    by (cases x) (simp_all add: date_range_def)
  then show "apply_filters P T [(''DATE_RANGE'', CSeq [x, None])] = Inr T"
    by (simp add: apply_filter_unfold)
qed

theorem date_range_inclusive_witness:
  "''DATE'' \<in> set (columns shipments) \<and> date_typed shipments
   \<and> to_timestamp pandas (Date 1704067200000000000) = Inr (Some 1704067200000000000)
   \<and> to_timestamp pandas (Date 1705276800000000000) = Inr (Some 1705276800000000000)
   \<and> apply_filters pandas shipments
        [(''DATE_RANGE'', CSeq [Some (Date 1704067200000000000), Some (Date 1705276800000000000)])]
      = Inr (shipments\<lparr>rows := [[Date 1704067200000000000, Str ''ACME Corp'', Str ''Mumbai'', Num 5],
              [Date 1705276800000000000, Str ''ABC Ltd'', Str ''Mumbai Port'', Num 0]]\<rparr>)
   \<and> ''DATE'' \<notin> set (columns (shipments\<lparr>columns := [''DAY'', ''INDIAN IMPORTER NAME'', ''INDIAN PORT'', ''QUANTITY'']\<rparr>))
   \<and> apply_filters pandas (shipments\<lparr>columns := [''DAY'', ''INDIAN IMPORTER NAME'', ''INDIAN PORT'', ''QUANTITY'']\<rparr>)
        [(''DATE_RANGE'', CSeq [Some (Date 1704067200000000000), Some (Date 1705276800000000000)])]
      = Inr (shipments\<lparr>columns := [''DAY'', ''INDIAN IMPORTER NAME'', ''INDIAN PORT'', ''QUANTITY'']\<rparr>)"
proof -
  have 1: "''DATE'' \<in> set (columns shipments)" by (simp add: shipments_def)
  have 2: "date_typed shipments" by (simp add: date_typed_def shipments_def get_def cell_at_def)
  have 3: "to_timestamp pandas (Date 1704067200000000000) = Inr (Some 1704067200000000000)"
    "to_timestamp pandas (Date 1705276800000000000) = Inr (Some 1705276800000000000)"
    by (simp_all add: pandas_def sample_lib_def)
  have 4: "keep shipments (\<lambda>r. in_range 1704067200000000000 1705276800000000000 (get shipments ''DATE'' r))
     = shipments\<lparr>rows := [[Date 1704067200000000000, Str ''ACME Corp'', Str ''Mumbai'', Num 5],
              [Date 1705276800000000000, Str ''ABC Ltd'', Str ''Mumbai Port'', Num 0]]\<rparr>"
    by (simp add: keep_def get_def cell_at_def shipments_def)
  have 5: "''DATE'' \<notin> set (columns (shipments\<lparr>columns := [''DAY'', ''INDIAN IMPORTER NAME'', ''INDIAN PORT'', ''QUANTITY'']\<rparr>))"
    by simp
  note a = date_range_inclusive[where T = shipments and P = pandas and a = "Date 1704067200000000000"
        and s = 1704067200000000000 and b = "Date 1705276800000000000" and e = 1705276800000000000]
  note b = date_range_inclusive[where T = "shipments\<lparr>columns := [''DAY'', ''INDIAN IMPORTER NAME'', ''INDIAN PORT'', ''QUANTITY'']\<rparr>"
        and P = pandas
        and c = "CSeq [Some (Date 1704067200000000000), Some (Date 1705276800000000000)]"]
  have 6: "apply_filters pandas shipments
        [(''DATE_RANGE'', CSeq [Some (Date 1704067200000000000), Some (Date 1705276800000000000)])]
      = Inr (shipments\<lparr>rows := [[Date 1704067200000000000, Str ''ACME Corp'', Str ''Mumbai'', Num 5],
              [Date 1705276800000000000, Str ''ABC Ltd'', Str ''Mumbai Port'', Num 0]]\<rparr>)"
    using a 1 2 3 4 by simp
  have 7: "apply_filters pandas (shipments\<lparr>columns := [''DAY'', ''INDIAN IMPORTER NAME'', ''INDIAN PORT'', ''QUANTITY'']\<rparr>)
        [(''DATE_RANGE'', CSeq [Some (Date 1704067200000000000), Some (Date 1705276800000000000)])]
      = Inr (shipments\<lparr>columns := [''DAY'', ''INDIAN IMPORTER NAME'', ''INDIAN PORT'', ''QUANTITY'']\<rparr>)"
    using b 5 by blast
  show ?thesis using 1 2 3 5 6 7 by blast
qed

text \<open>
  Claim C8. Every row of a filtered frame is a row of the frame that was filtered.
\<close>

theorem filter_non_expansive:
  "apply_filters P T criteria = Inr T' \<Longrightarrow> set (rows T') \<subseteq> set (rows T)"
  using apply_filters_keep[of P T criteria T'] by auto

theorem filter_non_expansive_witness:
  "apply_filters pandas shipments [(''INDIAN PORT'', CSeq [Some (Str ''Mumbai'')])]
     = Inr (shipments\<lparr>rows := [[Date 1704067200000000000, Str ''ACME Corp'', Str ''Mumbai'', Num 5]]\<rparr>)
   \<and> set (rows (shipments\<lparr>rows := [[Date 1704067200000000000, Str ''ACME Corp'', Str ''Mumbai'', Num 5]]\<rparr>))
       \<subseteq> set (rows shipments)"
proof -
  have e: "apply_filters pandas shipments [(''INDIAN PORT'', CSeq [Some (Str ''Mumbai'')])]
     = Inr (shipments\<lparr>rows := [[Date 1704067200000000000, Str ''ACME Corp'', Str ''Mumbai'', Num 5]]\<rparr>)"
    by (simp add: sample_defs)
  show ?thesis using e filter_non_expansive[OF e] by simp
qed

text \<open>
  Claim C10. A filtered frame has the labels and dtypes of the frame that was filtered,
  and its rows are a subsequence of that frame's rows: the rows that survive are
  unchanged, cell for cell, and stay in their order.
\<close>

theorem filter_keeps_frame:
  "apply_filters P T criteria = Inr T' \<Longrightarrow>
     columns T' = columns T \<and> dtypes T' = dtypes T \<and> subseq (rows T') (rows T)"
  using apply_filters_keep[of P T criteria T'] by auto

theorem filter_keeps_frame_witness:
  "apply_filters pandas shipments [(''INDIAN IMPORTER NAME'', CStr ''c''), (''INDIAN PORT'', CSeq [Some (Str ''Mumbai''), Some (Str ''Chennai'')])]
     = Inr (shipments\<lparr>rows := [[Date 1704067200000000000, Str ''ACME Corp'', Str ''Mumbai'', Num 5]]\<rparr>)
   \<and> columns (shipments\<lparr>rows := [[Date 1704067200000000000, Str ''ACME Corp'', Str ''Mumbai'', Num 5]]\<rparr>) = columns shipments
   \<and> subseq (rows (shipments\<lparr>rows := [[Date 1704067200000000000, Str ''ACME Corp'', Str ''Mumbai'', Num 5]]\<rparr>)) (rows shipments)"
proof -
  have e: "apply_filters pandas shipments [(''INDIAN IMPORTER NAME'', CStr ''c''), (''INDIAN PORT'', CSeq [Some (Str ''Mumbai''), Some (Str ''Chennai'')])]
     = Inr (shipments\<lparr>rows := [[Date 1704067200000000000, Str ''ACME Corp'', Str ''Mumbai'', Num 5]]\<rparr>)"
    by (simp add: sample_defs)
  show ?thesis using e filter_keeps_frame[OF e] by simp
qed

section \<open>Loading and patterns: auxiliary facts\<close>

lemma cell_at_set_cell: "cell_at j (set_cell i v r) = (if j = i then v else cell_at j r)"
  by (auto simp: cell_at_def set_cell_def nth_append nth_list_update)

lemma length_set_cell: "length (set_cell i v r) = max (length r) (Suc i)"
  by (simp add: set_cell_def)

lemma col_pos_less: "c \<in> set cols \<Longrightarrow> col_pos c cols < length cols"
  by (induction cols) auto

lemma col_pos_neq: "c' \<in> set cols \<Longrightarrow> c \<noteq> c' \<Longrightarrow> col_pos c cols \<noteq> col_pos c' cols"
  by (induction cols) auto

lemma assign_simps [simp]:
  "columns (assign df c t g) = columns df"
  "length (rows (assign df c t g)) = length (rows df)"
  "rows (assign df c t g) = map (\<lambda>r. set_cell (col_pos c (columns df)) (g (get df c r)) r) (rows df)"
  by (simp_all add: assign_def Let_def get_def)

lemma get_assign:
  "get (assign df c t g) c' (set_cell (col_pos c (columns df)) v r)
     = (if col_pos c' (columns df) = col_pos c (columns df) then v else get df c' r)"
  by (simp add: get_def cell_at_set_cell)


lemma columns_coerce_date [simp]: "columns (coerce_date P df) = columns df"
  by (simp add: coerce_date_def dropna_def)


lemma fillna0_parse_number: "fillna0 (parse_number P s v) = number_cell P s v"
  by (cases "to_numeric P s v") (simp_all add: fillna0_def parse_number_def number_cell_def)

lemma set_cell_twice: "set_cell i v (set_cell i w r) = set_cell i v r"
  by (simp add: set_cell_def list_update_append min_def)

lemma coerce_numeric_simps [simp]:
  "columns (coerce_numeric P df c) = columns df"
  "length (rows (coerce_numeric P df c)) = length (rows df)"
  by (simp_all add: coerce_numeric_def)

lemma rows_coerce_numeric:
  assumes "c \<in> set (columns df)"
  shows "rows (coerce_numeric P df c) =
     map (\<lambda>r. set_cell (col_pos c (columns df)) (number_cell P (column_values df c) (get df c r)) r) (rows df)"
  using assms
  by (simp add: coerce_numeric_def comp_def get_assign set_cell_twice fillna0_parse_number)

lemma get_coerce_numeric:
  assumes "k < length (rows df)"
  shows "get (coerce_numeric P df c') c (rows (coerce_numeric P df c') ! k) =
     (if c' = c \<and> c \<in> set (columns df) then number_cell P (column_values df c) (get df c (rows df ! k))
      else get df c (rows df ! k))"
proof (cases "c' \<in> set (columns df)")
  case False
  then show ?thesis by (auto simp: coerce_numeric_def)
next
  case True
  show ?thesis
  proof (cases "c' = c")
    case True
    then show ?thesis using \<open>c' \<in> set (columns df)\<close> assms
      by (simp add: rows_coerce_numeric get_def cell_at_set_cell)
  next
    case False
    then have "col_pos c (columns df) \<noteq> col_pos c' (columns df)"
      using True col_pos_neq by metis
    then show ?thesis using True False assms
      by (simp add: rows_coerce_numeric get_def cell_at_set_cell)
  qed
qed

lemma column_values_coerce_numeric:
  "c \<noteq> c' \<Longrightarrow> column_values (coerce_numeric P df c') c = column_values df c"
  by (rule nth_equalityI) (simp_all add: column_values_def get_coerce_numeric)

lemma foldl_coerce_simps [simp]:
  "columns (foldl (coerce_numeric P) df cs) = columns df"
  "length (rows (foldl (coerce_numeric P) df cs)) = length (rows df)"
  by (induction cs arbitrary: df) simp_all

lemma foldl_coerce_other:
  assumes "c \<notin> set cs" and "k < length (rows df)"
  shows "get (foldl (coerce_numeric P) df cs) c (rows (foldl (coerce_numeric P) df cs) ! k) = get df c (rows df ! k)"
  using assms
proof (induction cs arbitrary: df)
  case Nil
  then show ?case by simp
next
  case (Cons c' cs)
  then have "get (foldl (coerce_numeric P) (coerce_numeric P df c') cs) c
        (rows (foldl (coerce_numeric P) (coerce_numeric P df c') cs) ! k)
      = get (coerce_numeric P df c') c (rows (coerce_numeric P df c') ! k)"
    by simp
  moreover have "c' \<noteq> c" using Cons.prems(1) by auto
  ultimately show ?case using Cons.prems(2) by (simp add: get_coerce_numeric)
qed

lemma foldl_coerce_cell:
  assumes "distinct cs" and "c \<in> set cs" and "c \<in> set (columns df)" and "k < length (rows df)"
  shows "get (foldl (coerce_numeric P) df cs) c (rows (foldl (coerce_numeric P) df cs) ! k)
     = number_cell P (column_values df c) (get df c (rows df ! k))"
  using assms
proof (induction cs arbitrary: df)
  case Nil
  then show ?case by simp
next
  case (Cons c' cs)
  let ?S = "coerce_numeric P df c'"
  show ?case
  proof (cases "c' = c")
    case True
    then have "c \<notin> set cs" using Cons.prems(1) by simp
    then have "get (foldl (coerce_numeric P) ?S cs) c (rows (foldl (coerce_numeric P) ?S cs) ! k)
        = get ?S c (rows ?S ! k)"
      using Cons.prems(4) by (simp add: foldl_coerce_other)
    then show ?thesis using True Cons.prems by (simp add: get_coerce_numeric)
  next
    case False
    then have "c \<in> set cs" using Cons.prems(2) by simp
    then have "get (foldl (coerce_numeric P) ?S cs) c (rows (foldl (coerce_numeric P) ?S cs) ! k)
        = number_cell P (column_values ?S c) (get ?S c (rows ?S ! k))"
      using Cons.IH[of ?S] Cons.prems by simp
    then show ?thesis using False Cons.prems
      by (simp add: get_coerce_numeric column_values_coerce_numeric)
  qed
qed

lemma categorize_frame:
  "categorize df c = Inr df' \<Longrightarrow> columns df' = columns df \<and> rows df' = rows df"
  by (auto simp: categorize_def split: if_splits)

lemma categorize_all_frame:
  "categorize_all df cs = Inr df' \<Longrightarrow> columns df' = columns df \<and> rows df' = rows df"
proof (induction cs arbitrary: df)
  case Nil
  then show ?case by simp
next
  case (Cons c cs)
  from Cons.prems obtain d where d: "categorize df c = Inr d" "categorize_all d cs = Inr df'"
    by (cases "categorize df c") simp_all
  show ?case using categorize_frame[OF d(1)] Cons.IH[OF d(2)] by simp
qed

lemma load_data_Inr:
  assumes "load_data P name raw = Inr L"
  obtains df where "read_file P name raw = Inr df"
    and "columns L = columns (coerce_date P (rename_columns (strip_columns df)))"
    and "rows L = rows (foldl (coerce_numeric P) (coerce_date P (rename_columns (strip_columns df))) numeric_cols)"
proof -
  from assms obtain df where df: "read_file P name raw = Inr df" "normalize P df = Inr L"
    by (cases "read_file P name raw") (simp_all add: load_data_def)
  from categorize_all_frame[OF df(2)[unfolded normalize_def]]
  show ?thesis using df(1) that by simp
qed

lemma get_retype [simp]: "get (df\<lparr>dtypes := t\<rparr>) = get df"
  by (simp add: get_def fun_eq_iff)

lemma keep_retype [simp]: "keep (df\<lparr>dtypes := t\<rparr>) p = (keep df p)\<lparr>dtypes := t\<rparr>"
  by (simp add: keep_def)

lemma contains_retype: "contains P (df\<lparr>dtypes := t\<rparr>) c pat = retyped t (contains P df c pat)"
  by (simp add: contains_def retyped_def split: sum.splits)

lemma awp_retype: "awp_machines P (df\<lparr>dtypes := t\<rparr>) c = retyped t (awp_machines P df c)"
  by (simp add: awp_machines_def contains_retype split: sum.splits) (simp add: retyped_def)

lemma isin_retype: "isin (df\<lparr>dtypes := t\<rparr>) c vs = (isin df c vs)\<lparr>dtypes := t\<rparr>"
  by (simp add: isin_def)

lemma date_range_retype: "date_range P (df\<lparr>dtypes := t\<rparr>) c = retyped t (date_range P df c)"
  by (simp add: date_range_def retyped_def split: sum.splits option.splits)

lemma apply_filter_retype: "apply_filter P (df\<lparr>dtypes := t\<rparr>) f = retyped t (apply_filter P df f)"
proof -
  obtain k c where f: "f = (k, c)" by (cases f)
  have r: "Inr (df\<lparr>dtypes := t\<rparr>) = retyped t (Inr df)" by (simp add: retyped_def)
  show ?thesis
    unfolding f apply_filter_unfold
    by (cases c) (simp_all add: r contains_retype awp_retype isin_retype date_range_retype, simp_all add: retyped_def)
qed

lemma apply_filters_retype: "apply_filters P (df\<lparr>dtypes := t\<rparr>) fs = retyped t (apply_filters P df fs)"
proof (induction fs arbitrary: df)
  case Nil
  then show ?case by (simp add: retyped_def)
next
  case (Cons f fs)
  show ?case
  proof (cases "apply_filter P df f")
    case (Inl e)
    then show ?thesis by (simp add: apply_filter_retype retyped_def)
  next
    case (Inr d)
    then show ?thesis using Cons.IH[of d] by (simp add: apply_filter_retype retyped_def)
  qed
qed

lemma categorize_retype: "categorize df c = Inr df' \<Longrightarrow> df' = df\<lparr>dtypes := dtypes df'\<rparr>"
  by (auto simp: categorize_def split: if_splits)

lemma categorize_all_retype: "categorize_all df cs = Inr df' \<Longrightarrow> df' = df\<lparr>dtypes := dtypes df'\<rparr>"
proof (induction cs arbitrary: df)
  case Nil
  then show ?case by simp
next
  case (Cons c cs)
  from Cons.prems obtain d where d: "categorize df c = Inr d" "categorize_all d cs = Inr df'"
    by (cases "categorize df c") simp_all
  have "df' = d\<lparr>dtypes := dtypes df'\<rparr>" using Cons.IH[OF d(2)] .
  moreover have "d = df\<lparr>dtypes := dtypes d\<rparr>" using categorize_retype[OF d(1)] .
  ultimately have "df' = (df\<lparr>dtypes := dtypes d\<rparr>)\<lparr>dtypes := dtypes df'\<rparr>" by simp
  then show ?case by simp
qed

lemma categorized_filters_alike:
  assumes "categorize_all df cs = Inr df'"
  shows "apply_filters P df' fs = retyped (dtypes df') (apply_filters P df fs)"
proof -
  have "apply_filters P (df\<lparr>dtypes := dtypes df'\<rparr>) fs = retyped (dtypes df') (apply_filters P df fs)"
    by (rule apply_filters_retype)
  then show ?thesis using categorize_all_retype[OF assms] by simp
qed

lemma branches_plain: "plain pat \<Longrightarrow> branches pat = Some [map Lit pat]"
proof (induction pat rule: branches.induct)
  case 1
  then show ?case by simp
next
  case (2 c)
  then show ?case by (auto simp: plain_def re_special_def)
next
  case (3 c e es)
  then have "plain (e # es)" by (simp add: plain_def)
  then have "branches (e # es) = Some [map Lit (e # es)]" using 3 by (auto simp: plain_def re_special_def)
  moreover have "c \<noteq> CHR ''|''" "c \<noteq> backslash" "c \<noteq> CHR ''.''" "c \<notin> set re_special"
    using 3(5) by (auto simp: plain_def re_special_def)
  ultimately show ?case by simp
qed

lemma match_here_lit: "match_here (map Lit p) s = prefix (lower p) (lower s)"
  by (induction p s rule: list_induct2') (auto simp: lower_def)

lemma search_lit: "search (map Lit p) s = sublist (lower p) (lower s)"
proof (induction s)
  case Nil
  then show ?case by (cases p) (simp_all add: lower_def)
next
  case (Cons c cs)
  show ?case
  proof (cases p)
    case Nil
    then show ?thesis by (simp add: lower_def)
  next
    case (Cons a as)
    then show ?thesis using Cons.IH match_here_lit[of p "c # cs"]
      by (simp add: lower_def sublist_Cons_right)
  qed
qed

lemma re_fragment_plain: "plain pat \<Longrightarrow> re_fragment pat = Inr (\<lambda>s. sublist (lower pat) (lower s))"
proof (cases pat)
  case Nil
  then show ?thesis by (simp add: re_fragment_def lower_def)
next
  case (Cons c cs)
  assume p: "plain pat"
  then have "c \<notin> set ''*+?''" using Cons by (auto simp: plain_def re_special_def)
  moreover have "search (map Lit pat) = (\<lambda>s. sublist (lower pat) (lower s))"
    by (rule ext) (rule search_lit)
  ultimately show ?thesis using branches_plain[OF p] Cons
    by (simp add: re_fragment_def del: branches.simps)
qed

lemma plain_criterion_is_substring:
  assumes "plain pat" and "pat \<noteq> []" and "k \<in> set (columns T)"
    and "k \<noteq> ''DATE_RANGE''" and "k \<noteq> ''AWP_MACHINES''"
  shows "apply_filters (sample_lib F) T [(k, CStr pat)]
     = Inr (keep T (\<lambda>r. sublist (lower pat) (lower (astype_str (sample_lib F) (get T k r)))))"
  using assms re_fragment_plain[OF assms(1)]
  by (simp add: apply_filter_unfold contains_def sample_lib_def)

section \<open>Free-text filters and loading: the claims\<close>

text \<open>
  Claim C1. A free-text criterion is handed to \<^verbatim>\<open>str.contains\<close> as a regular expression
  (\<^verbatim>\<open>regex=True\<close> is the default), not as a substring. With the criterion \<^verbatim>\<open>a.c\<close> the
  filter keeps the importer \<^verbatim>\<open>ABC Ltd\<close>, whose name does not contain \<^verbatim>\<open>a.c\<close> in any
  letter case; with the criterion \<^verbatim>\<open>*\<close> it raises \<^verbatim>\<open>re.error\<close> and returns no frame.
\<close>

theorem free_text_criterion_is_a_pattern:
  "apply_filters pandas shipments [(''INDIAN IMPORTER NAME'', CStr ''a.c'')]
     = Inr (shipments\<lparr>rows := [[Date 1705276800000000000, Str ''ABC Ltd'', Str ''Mumbai Port'', Num 0]]\<rparr>)
   \<and> \<not> sublist (lower ''a.c'') (lower ''ABC Ltd'')
   \<and> apply_filters pandas shipments [(''INDIAN IMPORTER NAME'', CStr ''*'')] = Inl (Raised ''re.error'')"
  by code_simp

text \<open>
  Claim C2, as the code has it. When the file name ends in none of \<^verbatim>\<open>.csv\<close>,
  \<^verbatim>\<open>.txt\<close> and \<^verbatim>\<open>.xlsx\<close>, \<^verbatim>\<open>load_data\<close> returns no frame: it raises
  \<^verbatim>\<open>UnboundLocalError\<close>, whatever the library does and whatever the file holds.
\<close>

theorem unknown_suffix_raises_unbound_local:
  "\<not> endswith name ''.csv'' \<and> \<not> endswith name ''.txt'' \<and> \<not> endswith name ''.xlsx'' \<longrightarrow>
     load_data P name raw = Inl (Raised ''UnboundLocalError'')"
  by (simp add: load_data_def read_file_def)

theorem unknown_suffix_raises_unbound_local_witness:
  "\<not> endswith ''report.pdf'' ''.csv'' \<and> \<not> endswith ''report.pdf'' ''.txt'' \<and> \<not> endswith ''report.pdf'' ''.xlsx''
   \<and> load_data (sample_lib upload) ''report.pdf'' ''%PDF-1.7'' = Inl (Raised ''UnboundLocalError'')"
proof -
  have h: "\<not> endswith ''report.pdf'' ''.csv'' \<and> \<not> endswith ''report.pdf'' ''.txt'' \<and> \<not> endswith ''report.pdf'' ''.xlsx''"
    by (simp add: endswith_def)
  show ?thesis using h unknown_suffix_raises_unbound_local[of "''report.pdf''" "sample_lib upload" "''%PDF-1.7''"] by blast
qed

text \<open>
  Claim C2 as stated fails: for \<^verbatim>\<open>report.pdf\<close> the exception is not an
  \<^verbatim>\<open>UnsupportedFormat\<close>.
\<close>

theorem unknown_suffix_not_unsupported_format:
  "load_data (sample_lib upload) ''report.pdf'' ''%PDF-1.7'' \<noteq> Inl (Raised ''UnsupportedFormat'')"
  by (simp add: load_data_def read_file_def endswith_def)




text \<open>
  Claim C4. Numeric coercion (the loop of lines 101-104) leaves the number of rows as
  it is. In each column of \<open>numeric_cols\<close> that the frame has, every cell becomes the
  number parsed from it, and the number zero when it does not parse. In every frame
  \<^verbatim>\<open>load_data\<close> returns, such a column holds numbers only.
\<close>

theorem numeric_coercion_fills_zero:
  "length (rows (foldl (coerce_numeric P) df numeric_cols)) = length (rows df)
   \<and> (c \<in> set numeric_cols \<and> c \<in> set (columns df) \<and> k < length (rows df) \<longrightarrow>
        get (foldl (coerce_numeric P) df numeric_cols) c (rows (foldl (coerce_numeric P) df numeric_cols) ! k)
          = (case to_numeric P (column_values df c) (get df c (rows df ! k)) of
               Some n \<Rightarrow> Num n
             | None \<Rightarrow> Num 0))
   \<and> (load_data P name raw = Inr L \<and> c \<in> set numeric_cols \<and> c \<in> set (columns L) \<longrightarrow>
        list_all (\<lambda>r. is_num (get L c r)) (rows L))"
proof (intro conjI impI)
  show "length (rows (foldl (coerce_numeric P) df numeric_cols)) = length (rows df)" by simp
next
  assume "c \<in> set numeric_cols \<and> c \<in> set (columns df) \<and> k < length (rows df)"
  moreover have "distinct numeric_cols" by (simp add: numeric_cols_def)
  ultimately show "get (foldl (coerce_numeric P) df numeric_cols) c (rows (foldl (coerce_numeric P) df numeric_cols) ! k)
          = (case to_numeric P (column_values df c) (get df c (rows df ! k)) of
               Some n \<Rightarrow> Num n
             | None \<Rightarrow> Num 0)"
    using foldl_coerce_cell[of numeric_cols c df k P] by (simp add: number_cell_def)
next
  assume a: "load_data P name raw = Inr L \<and> c \<in> set numeric_cols \<and> c \<in> set (columns L)"
  then obtain df where df: "columns L = columns (coerce_date P (rename_columns (strip_columns df)))"
    "rows L = rows (foldl (coerce_numeric P) (coerce_date P (rename_columns (strip_columns df))) numeric_cols)"
    using load_data_Inr[of P name raw L] by blast
  let ?D = "coerce_date P (rename_columns (strip_columns df))"
  let ?N = "foldl (coerce_numeric P) ?D numeric_cols"
  have g: "get L c = get ?N c" by (rule get_cong) (simp add: df(1))
  have dn: "distinct numeric_cols" by (simp add: numeric_cols_def)
  have "is_num (get L c (rows L ! k))" if "k < length (rows L)" for k
  proof -
    have k: "k < length (rows ?D)" using that df(2) by simp
    have "get ?N c (rows ?N ! k) = number_cell P (column_values ?D c) (get ?D c (rows ?D ! k))"
      using foldl_coerce_cell[OF dn _ _ k, of c P] a df(1) by simp
    then show ?thesis using g df(2)
      by (cases "to_numeric P (column_values ?D c) (get ?D c (rows ?D ! k))") (simp_all add: number_cell_def)
  qed
  then show "list_all (\<lambda>r. is_num (get L c r)) (rows L)"
    by (simp add: list_all_length)
qed

theorem numeric_coercion_fills_zero_witness:
  "''QUANTITY'' \<in> set numeric_cols
   \<and> ''QUANTITY'' \<in> set (columns (rename_columns (strip_columns upload)))
   \<and> 2 < length (rows (rename_columns (strip_columns upload)))
   \<and> to_numeric (sample_lib upload) (column_values (rename_columns (strip_columns upload)) ''QUANTITY'')
        (get (rename_columns (strip_columns upload)) ''QUANTITY'' (rows (rename_columns (strip_columns upload)) ! 2)) = None
   \<and> get (foldl (coerce_numeric (sample_lib upload)) (rename_columns (strip_columns upload)) numeric_cols) ''QUANTITY''
        (rows (foldl (coerce_numeric (sample_lib upload)) (rename_columns (strip_columns upload)) numeric_cols) ! 2) = Num 0
   \<and> length (rows (foldl (coerce_numeric (sample_lib upload)) (rename_columns (strip_columns upload)) numeric_cols)) = 4
   \<and> load_data (sample_lib upload) ''january.csv'' ''raw'' = Inr loaded
   \<and> ''QUANTITY'' \<in> set (columns loaded)
   \<and> list_all (\<lambda>r. is_num (get loaded ''QUANTITY'' r)) (rows loaded)"
proof -
  let ?J = "rename_columns (strip_columns upload)"
  let ?P = "sample_lib upload"
  have 1: "''QUANTITY'' \<in> set numeric_cols" by code_simp
  have 2: "''QUANTITY'' \<in> set (columns ?J)" by code_simp
  have 3: "length (rows ?J) = 4" by code_simp
  have 4: "to_numeric ?P (column_values ?J ''QUANTITY'') (get ?J ''QUANTITY'' (rows ?J ! 2)) = None"
    by code_simp
  have 5: "load_data ?P ''january.csv'' ''raw'' = Inr loaded" by code_simp
  have 6: "''QUANTITY'' \<in> set (columns loaded)" by code_simp
  note a = numeric_coercion_fills_zero[where df = ?J and P = ?P and c = "''QUANTITY''" and k = 2
      and name = "''january.csv''" and raw = "''raw''" and L = loaded]
  have "2 < length (rows ?J)" unfolding 3 by simp
  then have "get (foldl (coerce_numeric ?P) ?J numeric_cols) ''QUANTITY''
        (rows (foldl (coerce_numeric ?P) ?J numeric_cols) ! 2)
      = (case to_numeric ?P (column_values ?J ''QUANTITY'') (get ?J ''QUANTITY'' (rows ?J ! 2)) of
           Some n \<Rightarrow> Num n | None \<Rightarrow> Num 0)"
    using a 1 2 by blast
  then have 7: "get (foldl (coerce_numeric ?P) ?J numeric_cols) ''QUANTITY''
        (rows (foldl (coerce_numeric ?P) ?J numeric_cols) ! 2) = Num 0"
    unfolding 4 by simp
  have "length (rows (foldl (coerce_numeric ?P) ?J numeric_cols)) = length (rows ?J)"
    using a by blast
  then have 8: "length (rows (foldl (coerce_numeric ?P) ?J numeric_cols)) = 4"
    unfolding 3 .
  have 9: "list_all (\<lambda>r. is_num (get loaded ''QUANTITY'' r)) (rows loaded)"
    using a 1 5 6 by blast
  show ?thesis using 1 2 3 4 5 6 7 8 9 by simp
qed

text \<open>
  Claim C9. For a file with a header line and no data line, the categorical step
  divides by the row count zero: \<^verbatim>\<open>load_data\<close> raises \<^verbatim>\<open>ZeroDivisionError\<close>, where
  lines 63-104 alone, without that step, give the empty frame that was read. (Where
  the step returns, filters cannot tell its result from its argument:
  \<open>categorized_filters_alike\<close>.)
\<close>

theorem categorize_raises_on_empty_frame:
  "load_data (sample_lib header_only) ''empty.csv'' ''MODE  CITY'' = Inl (Raised ''ZeroDivisionError'')
   \<and> read_file (sample_lib header_only) ''empty.csv'' ''MODE  CITY'' = Inr header_only
   \<and> foldl (coerce_numeric (sample_lib header_only))
         (coerce_date (sample_lib header_only) (rename_columns (strip_columns header_only))) numeric_cols
       = header_only"
  by code_simp

end
